theory Spec2Isabelle
  imports Main "HOL-Library.Sublist" "HOL-Library.Char_ord" "HOL-Library.List_Lexorder"
begin

section \<open>The language tables of soquery.py\<close>

text \<open>
  Python strings are modelled as \<open>string\<close> (every literal of the script is ASCII).
  The module builds \<open>langs\<close> as a literal list and sorts it in place at load time;
  \<open>list.sort\<close> on strings is the lexicographic order on code points, which is the
  order of \<open>HOL-Library.List_Lexorder\<close> over \<open>HOL-Library.Char_ord\<close>.
\<close>

definition langs_literal :: "string list" where
  "langs_literal =
    [''java'', ''c'', ''c++'', ''c#'', ''python'', ''visual basic'', ''node'',
     ''perl'', ''php'', ''ruby'', ''go'', ''swift'', ''objective c'', ''cobol'', ''fortran'',
     ''lua'', ''scala'', ''lisp'', ''haskell'', ''rust'', ''erlang'', ''clojure'', ''matlab'',
     ''pascal'', ''r'', ''kotlin'']"

definition langs :: "string list" where
  "langs = sort langs_literal"

text \<open>The dict \<open>tag_langs\<close>: languages whose tag text differs from their name.\<close>

definition tag_langs :: "string \<rightharpoonup> string" where
  "tag_langs = map_of
    [(''visual basic'', ''vb.net''),
     (''node'', ''node.js''),
     (''objective c'', ''objective-c'')]"

definition DIR :: string where
  "DIR = ''/Volumes/TarDisk/soposts2''"

section \<open>Utility functions for language text and file names\<close>

text \<open>The raw-string literals contain a backslash, written here as a character code.\<close>

definition bslash :: string where
  "bslash = [CHR 0x5C]"

definition squote :: string where
  "squote = [CHR 0x27]"

definition fix_lang_text :: "string \<Rightarrow> string" where
  "fix_lang_text lang =
    (if lang = ''c'' then ''/'' @ bslash @ ''bin c'' @ bslash @ ''b/''
     else if lang = ''r'' then ''/'' @ bslash @ ''bin r'' @ bslash @ ''b/''
     else if lang = ''go'' then ''/'' @ bslash @ ''bin go'' @ bslash @ ''b/''
     else ''/'' @ bslash @ ''b'' @ lang @ bslash @ ''b/'')"

definition lang_file_name :: "string \<Rightarrow> string" where
  "lang_file_name lang =
    (if lang = ''c#'' then ''cs''
     else if lang = ''c++'' then ''cpp''
     else if lang = ''objective c'' then ''objectivec''
     else if lang = ''visual basic'' then ''visualbasic''
     else lang)"

definition revert_lang_file_name :: "string \<Rightarrow> string" where
  "revert_lang_file_name lang =
    (if lang = ''cs'' then ''c#''
     else if lang = ''cpp'' then ''c++''
     else if lang = ''objectivec'' then ''objective c''
     else if lang = ''visualbasic'' then ''visual basic''
     else lang)"

text \<open>\<open>s.replace(' ', '')\<close> deletes every space.\<close>

definition remove_spaces :: "string \<Rightarrow> string" where
  "remove_spaces s = filter (\<lambda>c. c \<noteq> CHR '' '') s"

section \<open>The pair query\<close>

text \<open>
  The f-string of \<open>query_language_pair\<close> as a function of the values it interpolates.
  The literal starts with a line break and ends with a line break followed by the
  eight spaces that precede the closing quotes.
\<close>

definition pair_sql :: "string \<Rightarrow> string \<Rightarrow> string \<Rightarrow> string" where
  "pair_sql atag btag btext =
    ''\<newline>        SELECT CONCAT('http://stackoverflow.com/q/', Cast(P.Id as string)) as URL, P.Title, P.ViewCount, P.Score, P.AcceptedAnswerId, P.Tags, P.Body'' @
    ''\<newline>        FROM `sotorrent-org.2018_12_09.Posts` P'' @
    ''\<newline>        WHERE P.PostTypeId = 1 AND ('' @
    ''\<newline>        (P.Tags LIKE '' @ squote @ atag @ squote @ '' AND P.Tags LIKE '' @ squote @ btag @ squote @ '')'' @
    ''\<newline>        OR'' @
    ''\<newline>        (P.Tags LIKE '' @ squote @ atag @ squote @ '' AND (P.Title LIKE '' @ squote @ btext @ squote @ '' OR P.Body LIKE '' @ squote @ btext @ squote @ ''))'' @
    ''\<newline>        )'' @
    ''\<newline>        AND'' @
    ''\<newline>        P.Score >= 0'' @
    ''\<newline>        AND'' @
    ''\<newline>        P.AcceptedAnswerId IS NOT NULL'' @
    ''\<newline>        ''"

text \<open>
  \<open>query_language_pair\<close> sends one query to the client and writes one CSV file.
  The model returns what the two collaborators receive: the SQL text, the location
  hint and the path handed to \<open>to_csv\<close>. The two progress lines it prints are left out.
\<close>

record pair_request =
  sql :: string
  location :: string
  csv_path :: string

definition query_language_pair :: "string \<Rightarrow> string \<Rightarrow> string \<Rightarrow> pair_request" where
  "query_language_pair a b path =
    (let btext = fix_lang_text b;
         atag = (case tag_langs a of Some t \<Rightarrow> ''%<'' @ t @ ''>%'' | None \<Rightarrow> ''%<'' @ a @ ''>%'');
         btag = (case tag_langs b of Some t \<Rightarrow> ''%<'' @ t @ ''>%'' | None \<Rightarrow> ''%<'' @ b @ ''>%'');
         query = pair_sql atag btag btext;
         a_filename = lang_file_name a;
         b_filename = lang_file_name b
     in \<lparr>sql = query, location = ''US'',
         csv_path = path @ ''/'' @ a_filename @ ''_'' @ b_filename @ ''.csv''\<rparr>)"

text \<open>The default value of the \<open>path\<close> argument.\<close>

definition default_path :: string where
  "default_path = ''./''"

section \<open>The all-targets count query\<close>

text \<open>The f-string appended for one target language, as a function of its holes.\<close>

definition count_sql :: "string \<Rightarrow> string \<Rightarrow> string \<Rightarrow> string \<Rightarrow> string" where
  "count_sql atag btag btext lang_no_space =
    ''\<newline>            (SELECT COUNT(distinct P.Id) AS '' @ lang_no_space @
    ''\<newline>            FROM `sotorrent-org.2018_12_09.Posts` P'' @
    ''\<newline>            WHERE P.PostTypeId = 1 AND ('' @
    ''\<newline>            (P.Tags LIKE '' @ squote @ atag @ squote @ '' AND P.Tags LIKE '' @ squote @ btag @ squote @ '')'' @
    ''\<newline>            OR'' @
    ''\<newline>            (P.Tags LIKE '' @ squote @ atag @ squote @ '' AND (P.Title LIKE '' @ squote @ btext @ squote @ '' OR P.Body LIKE '' @ squote @ btext @ squote @ ''))'' @
    ''\<newline>            )'' @
    ''\<newline>            AND'' @
    ''\<newline>            P.Score >= 0) AS '' @ lang_no_space"

definition sql_header :: string where
  "sql_header = ''SELECT * FROM\<newline>\<newline>''"

definition sql_sep :: string where
  "sql_sep = '',\<newline>''"

text \<open>
  One iteration of the loop \<open>for i, l in enumerate(langs)\<close>, from the accumulated
  text to the new one. The \<open>continue\<close> of the source leaves the iteration after the
  subselect has been appended and before the separator is.
\<close>

definition build_step :: "string \<Rightarrow> string \<Rightarrow> nat \<times> string \<Rightarrow> string" where
  "build_step a sql_expr il =
    (let i = fst il; l = snd il;
         atag = (case tag_langs a of Some t \<Rightarrow> ''%<'' @ t @ ''>%'' | None \<Rightarrow> ''%<'' @ a @ ''>%'');
         btext = fix_lang_text l;
         btag = (case tag_langs l of Some t \<Rightarrow> ''%<'' @ t @ ''>%'' | None \<Rightarrow> ''%<'' @ l @ ''>%'');
         lang_no_space = remove_spaces (lang_file_name l)
     in if l \<noteq> a then
          (let sql_expr1 = sql_expr @ count_sql atag btag btext lang_no_space
           in if a = ''visual basic'' \<and> l = ''swift'' then sql_expr1
              else if i \<noteq> length langs - 1 then sql_expr1 @ sql_sep
              else sql_expr1)
        else sql_expr)"

definition build_sql_expr :: "string \<Rightarrow> string" where
  "build_sql_expr a = foldl (build_step a) sql_header (enumerate 0 langs)"

section \<open>The batch driver for the fixed pairs\<close>

definition prev_tokens :: "string list" where
  "prev_tokens = [''c'', ''cs'', ''clojure'', ''java'', ''kotlin'', ''lua'', ''matlab'', ''node'',
       ''objectivec'', ''perl'', ''php'', ''python'', ''r'', ''ruby'', ''scala'']"

definition target_tokens :: "string list" where
  "target_tokens = [''cpp'', ''visualbasic'', ''java'', ''cs'', ''java'', ''cpp'', ''python'', ''php'',
       ''swift'', ''python'', ''java'', ''cpp'', ''python'', ''python'', ''java'']"

text \<open>
  The loop of \<open>query_pairs\<close> converts each zipped pair of tokens back and calls
  \<open>query_language_pair\<close> with it; \<open>query_pairs_args\<close> is the list of converted pairs
  in call order and \<open>query_pairs\<close> the list of requests made.
\<close>

definition query_pairs_args :: "(string \<times> string) list" where
  "query_pairs_args =
    map (\<lambda>(p, t). (revert_lang_file_name p, revert_lang_file_name t)) (zip prev_tokens target_tokens)"

definition query_pairs :: "pair_request list" where
  "query_pairs = map (\<lambda>(p, t). query_language_pair p t DIR) query_pairs_args"

text \<open>The table of pairs in the docstring of \<open>query_pairs\<close>, in file-name tokens.\<close>

definition documented_pairs :: "(string \<times> string) list" where
  "documented_pairs =
    [(''c'', ''cpp''), (''cs'', ''visualbasic''), (''clojure'', ''java''), (''java'', ''cs''),
     (''kotlin'', ''java''), (''lua'', ''cpp''), (''matlab'', ''python''), (''node'', ''php''),
     (''objectivec'', ''swift''), (''perl'', ''python''), (''php'', ''java''), (''python'', ''cpp''),
     (''r'', ''python''), (''ruby'', ''python''), (''scala'', ''java'')]"

section \<open>Measuring the generated text\<close>

text \<open>\<open>occurrences p s\<close> is the number of positions of \<open>s\<close> at which \<open>p\<close> starts.\<close>

fun occurrences :: "string \<Rightarrow> string \<Rightarrow> nat" where
  "occurrences p [] = 0"
| "occurrences p (c # cs) = (if prefix p (c # cs) then 1 else 0) + occurrences p cs"

text \<open>\<open>join_with sep xs\<close> puts \<open>sep\<close> between consecutive elements, and nowhere else.\<close>

fun join_with :: "string \<Rightarrow> string list \<Rightarrow> string" where
  "join_with sep [] = []"
| "join_with sep [x] = x"
| "join_with sep (x # y # ys) = x @ sep @ join_with sep (y # ys)"

text \<open>
  Names for the values the loop of \<open>build_sql_expr\<close> interpolates: the tag pattern of a
  language, the alias of a target, the subselect generated for source \<open>a\<close> and target
  \<open>l\<close>, and the targets of \<open>a\<close> in list order.
\<close>

definition tag_pattern :: "string \<Rightarrow> string" where
  "tag_pattern l = (case tag_langs l of Some t \<Rightarrow> ''%<'' @ t @ ''>%'' | None \<Rightarrow> ''%<'' @ l @ ''>%'')"

definition alias_of :: "string \<Rightarrow> string" where
  "alias_of l = remove_spaces (lang_file_name l)"

definition target_sql :: "string \<Rightarrow> string \<Rightarrow> string" where
  "target_sql a l = count_sql (tag_pattern a) (tag_pattern l) (fix_lang_text l) (alias_of l)"

definition targets :: "string \<Rightarrow> string list" where
  "targets a = filter (\<lambda>l. l \<noteq> a) langs"

definition subselect_marker :: string where
  "subselect_marker = ''(SELECT COUNT(distinct P.Id) AS ''"

definition accepted_marker :: string where
  "accepted_marker = ''AcceptedAnswerId''"

definition score_marker :: string where
  "score_marker = ''P.Score >= 0''"

definition type_marker :: string where
  "type_marker = ''P.PostTypeId = 1''"

text \<open>
  The WHERE clause shared by the two templates, up to the indentation \<open>ind\<close> that
  follows each line break: question posts, the disjunction of the two tag conditions,
  and a non-negative score.
\<close>

definition where_predicate :: "string \<Rightarrow> string \<Rightarrow> string \<Rightarrow> string \<Rightarrow> string" where
  "where_predicate ind atag btag btext =
    ''WHERE P.PostTypeId = 1 AND ('' @
    ''\<newline>'' @ ind @ ''(P.Tags LIKE '' @ squote @ atag @ squote @ '' AND P.Tags LIKE '' @ squote @ btag @ squote @ '')'' @
    ''\<newline>'' @ ind @ ''OR'' @
    ''\<newline>'' @ ind @ ''(P.Tags LIKE '' @ squote @ atag @ squote @ '' AND (P.Title LIKE '' @ squote @ btext @ squote @ '' OR P.Body LIKE '' @ squote @ btext @ squote @ ''))'' @
    ''\<newline>'' @ ind @ '')'' @
    ''\<newline>'' @ ind @ ''AND'' @
    ''\<newline>'' @ ind @ ''P.Score >= 0''"

definition indent8 :: string where
  "indent8 = ''        ''"

definition indent12 :: string where
  "indent12 = ''            ''"

text \<open>
  \<open>no_cross p xs\<close>: no occurrence of \<open>p\<close> starts inside \<open>xs\<close> and ends after it,
  whatever text follows \<open>xs\<close>: no suffix of \<open>xs\<close> is a proper beginning of \<open>p\<close>.
\<close>

fun no_cross :: "string \<Rightarrow> string \<Rightarrow> bool" where
  "no_cross p [] = True"
| "no_cross p (c # cs) = (\<not> (prefix (c # cs) p \<and> c # cs \<noteq> p) \<and> no_cross p cs)"

text \<open>
  \<open>tag_clear p n s\<close>: \<open>p\<close> occurs \<open>n\<close> times in \<open>s\<close> and no occurrence leaves \<open>s\<close>.
  \<open>tag_row (l, t) x\<close> says so of the tag pattern of \<open>x\<close> followed by its closing quote:
  the pattern with the override \<open>t\<close> occurs in it once if \<open>x\<close> is \<open>l\<close> and not otherwise,
  and the pattern with the bare name \<open>l\<close> does not occur in it.
\<close>

definition tag_clear :: "string \<Rightarrow> nat \<Rightarrow> string \<Rightarrow> bool" where
  "tag_clear p n s = (no_cross p s \<and> occurrences p s = n)"

definition tag_row :: "string \<times> string \<Rightarrow> string \<Rightarrow> bool" where
  "tag_row lt x =
     (tag_clear (''%<'' @ snd lt @ ''>%'') (if x = fst lt then 1 else 0) (tag_pattern x @ squote)
      \<and> tag_clear (''%<'' @ fst lt @ ''>%'') 0 (tag_pattern x @ squote))"

section \<open>The sorted list and the shape of the generated text\<close>

lemma langs_eq: "langs =
  [''c'', ''c#'', ''c++'', ''clojure'', ''cobol'', ''erlang'', ''fortran'',
  ''go'', ''haskell'', ''java'', ''kotlin'', ''lisp'', ''lua'', ''matlab'',
  ''node'', ''objective c'', ''pascal'', ''perl'', ''php'', ''python'',
  ''r'', ''ruby'', ''rust'', ''scala'', ''swift'', ''visual basic'']"
  unfolding langs_def langs_literal_def by code_simp

lemma build_step_append: "build_step a acc il = acc @ build_step a [] il"
  by (simp add: build_step_def Let_def)

lemma foldl_build_step: "foldl (build_step a) acc ils = acc @ concat (map (build_step a []) ils)"
proof (induction ils arbitrary: acc)
  case Nil
  show ?case by simp
next
  case (Cons il ils)
  show ?case by (simp add: Cons.IH build_step_append [of a acc il])
qed

lemma occurrences_skip:
  "p \<noteq> [] \<Longrightarrow> hd p \<notin> set xs \<Longrightarrow> occurrences p (xs @ ys) = occurrences p ys"
proof (induction xs)
  case Nil
  show ?case by simp
next
  case (Cons x xs)
  then have "\<not> prefix p (x # xs @ ys)"
    by (cases p) auto
  with Cons show ?case by simp
qed

lemma join_with_snoc: "join_with sep (xs @ [x]) = concat (map (\<lambda>y. y @ sep) xs) @ x"
  by (induction sep xs rule: join_with.induct) simp_all

lemma concat_filter_pieces:
  "concat (map (\<lambda>l. if l \<noteq> a then f l @ sep else []) xs)
     = concat (map (\<lambda>y. y @ sep) (map f (filter (\<lambda>l. l \<noteq> a) xs)))"
  by (induction xs) simp_all

lemma length_langs: "length langs = 26"
  by (simp add: langs_eq)

lemma langs_snoc: "langs = butlast langs @ [''visual basic'']"
  by (simp add: langs_eq)

lemma build_step_inner:
  assumes "a \<noteq> ''visual basic''" and "i < length langs - 1"
  shows "build_step a [] (i, l) = (if l \<noteq> a then target_sql a l @ sql_sep else [])"
  using assms
  by (simp add: build_step_def Let_def target_sql_def tag_pattern_def alias_of_def)

lemma build_step_final:
  assumes "a \<noteq> ''visual basic''"
  shows "build_step a [] (length langs - 1, ''visual basic'') = target_sql a ''visual basic''"
  using assms
  by (simp add: build_step_def Let_def target_sql_def tag_pattern_def alias_of_def)

lemma build_front:
  assumes "a \<noteq> ''visual basic''"
  shows "concat (map (build_step a []) (enumerate 0 (butlast langs)))
           = concat (map (\<lambda>y. y @ sql_sep) (map (target_sql a) (filter (\<lambda>l. l \<noteq> a) (butlast langs))))"
proof -
  have "map (build_step a []) (enumerate 0 (butlast langs))
          = map ((\<lambda>l. if l \<noteq> a then target_sql a l @ sql_sep else []) \<circ> snd) (enumerate 0 (butlast langs))"
  proof (rule map_cong [OF refl])
    fix il assume mem: "il \<in> set (enumerate 0 (butlast langs))"
    obtain i l where il: "il = (i, l)" by (cases il)
    from mem have "fst il < length langs - 1"
      unfolding il by (simp add: in_set_enumerate_eq)
    then show "build_step a [] il = ((\<lambda>l. if l \<noteq> a then target_sql a l @ sql_sep else []) \<circ> snd) il"
      using build_step_inner [OF assms, of "fst il" "snd il"] by simp
  qed
  also have "\<dots> = map (\<lambda>l. if l \<noteq> a then target_sql a l @ sql_sep else []) (butlast langs)"
    by (simp flip: map_map)
  finally show ?thesis
    by (simp only: concat_filter_pieces)
qed

lemma build_structure_vb:
  "build_sql_expr ''visual basic''
     = sql_header @ join_with sql_sep (map (target_sql ''visual basic'') (targets ''visual basic''))"
  by (simp add: build_sql_expr_def targets_def langs_eq build_step_def Let_def
        target_sql_def tag_pattern_def alias_of_def)

lemma build_structure:
  "build_sql_expr a = sql_header @ join_with sql_sep (map (target_sql a) (targets a))"
proof (cases "a = ''visual basic''")
  case True
  then show ?thesis by (simp only: build_structure_vb)
next
  case False
  have en: "enumerate 0 langs = enumerate 0 (butlast langs) @ [(length langs - 1, ''visual basic'')]"
    by (subst langs_snoc) (simp add: enumerate_append_eq length_langs)
  have tg: "targets a = filter (\<lambda>l. l \<noteq> a) (butlast langs) @ [''visual basic'']"
    unfolding targets_def using False by (subst langs_snoc) simp
  have "build_sql_expr a = sql_header @ concat (map (build_step a []) (enumerate 0 langs))"
    by (simp add: build_sql_expr_def foldl_build_step)
  also have "concat (map (build_step a []) (enumerate 0 langs))
        = concat (map (\<lambda>y. y @ sql_sep) (map (target_sql a) (filter (\<lambda>l. l \<noteq> a) (butlast langs))))
            @ target_sql a ''visual basic''"
    by (simp only: en map_append concat_append build_front [OF False] list.map concat.simps
          build_step_final [OF False] append_Nil2)
  also have "\<dots> = join_with sql_sep (map (target_sql a) (targets a))"
    by (simp only: tg map_append list.map join_with_snoc)
  finally show ?thesis .
qed

section \<open>Counting markers in the generated text\<close>

lemma hole_chars_all:
  "list_all (\<lambda>l. list_all (\<lambda>c. c \<notin> set (tag_pattern l) \<and> c \<notin> set (fix_lang_text l) \<and> c \<notin> set (alias_of l))
      [CHR ''('', CHR '','', CHR ''A'', CHR ''P'', CHR ''\<newline>'']) langs"
  unfolding langs_eq
  by (simp add: tag_pattern_def tag_langs_def fix_lang_text_def alias_of_def remove_spaces_def
        lang_file_name_def bslash_def)

lemma hole_chars:
  assumes "l \<in> set langs" and "c \<in> {CHR ''('', CHR '','', CHR ''A'', CHR ''P'', CHR ''\<newline>''}"
  shows "c \<notin> set (tag_pattern l)" and "c \<notin> set (fix_lang_text l)" and "c \<notin> set (alias_of l)"
proof -
  from hole_chars_all assms(1)
  have "list_all (\<lambda>c. c \<notin> set (tag_pattern l) \<and> c \<notin> set (fix_lang_text l) \<and> c \<notin> set (alias_of l))
      [CHR ''('', CHR '','', CHR ''A'', CHR ''P'', CHR ''\<newline>'']"
    unfolding list_all_iff by blast
  with assms(2) show "c \<notin> set (tag_pattern l)" and "c \<notin> set (fix_lang_text l)" and "c \<notin> set (alias_of l)"
    unfolding list_all_iff by auto
qed

lemma alias_nonempty_all: "list_all (\<lambda>l. alias_of l \<noteq> []) langs"
  unfolding langs_eq
  by (simp add: alias_of_def remove_spaces_def lang_file_name_def)

lemma alias_nonempty: "l \<in> set langs \<Longrightarrow> alias_of l \<noteq> []"
  using alias_nonempty_all unfolding list_all_iff by blast

lemma occurrences_join:
  assumes "\<And>rest. occurrences p (sep @ rest) = j + occurrences p rest"
    and "\<And>x rest. x \<in> set xs \<Longrightarrow> occurrences p (x @ rest) = k + occurrences p rest"
  shows "occurrences p (join_with sep xs @ rest) = k * length xs + j * (length xs - 1) + occurrences p rest"
  using assms
proof (induction sep xs rule: join_with.induct)
  case (1 sep)
  show ?case by simp
next
  case (2 sep x)
  then show ?case by simp
next
  case (3 sep x y ys)
  have "occurrences p (join_with sep (x # y # ys) @ rest)
          = k + (j + occurrences p (join_with sep (y # ys) @ rest))"
    using "3.prems"(2) [of x] "3.prems"(1) by simp
  also have "occurrences p (join_with sep (y # ys) @ rest)
          = k * length (y # ys) + j * (length (y # ys) - 1) + occurrences p rest"
    using "3.IH" "3.prems" by simp
  finally show ?case by (simp add: algebra_simps)
qed

lemma occurrences_short: "length s < length p \<Longrightarrow> occurrences p s = 0"
proof (induction s)
  case Nil
  show ?case by simp
next
  case (Cons c s)
  then have "\<not> prefix p (c # s)"
    using prefix_length_le by fastforce
  with Cons show ?case by simp
qed

lemma occ_marker_target:
  assumes "a \<in> set langs" and "l \<in> set langs"
  shows "occurrences subselect_marker (target_sql a l @ rest) = 1 + occurrences subselect_marker rest"
  using hole_chars [OF assms(1), of "CHR ''(''"] hole_chars [OF assms(2), of "CHR ''(''"]
  by (simp add: target_sql_def count_sql_def subselect_marker_def squote_def occurrences_skip)

lemma occ_sep_target:
  assumes "a \<in> set langs" and "l \<in> set langs"
  shows "occurrences sql_sep (target_sql a l @ rest) = occurrences sql_sep rest"
  using hole_chars [OF assms(1), of "CHR '',''"] hole_chars [OF assms(2), of "CHR '',''"]
  by (simp add: target_sql_def count_sql_def sql_sep_def squote_def occurrences_skip)

lemma occ_accepted_target:
  assumes "a \<in> set langs" and "l \<in> set langs"
  shows "occurrences accepted_marker (target_sql a l @ rest) = occurrences accepted_marker rest"
  using hole_chars [OF assms(1), of "CHR ''A''"] hole_chars [OF assms(2), of "CHR ''A''"]
  by (simp add: target_sql_def count_sql_def accepted_marker_def squote_def occurrences_skip)

lemma occ_score_target:
  assumes "a \<in> set langs" and "l \<in> set langs"
  shows "occurrences score_marker (target_sql a l @ rest) = 1 + occurrences score_marker rest"
  using hole_chars [OF assms(1), of "CHR ''P''"] hole_chars [OF assms(2), of "CHR ''P''"]
  by (simp add: target_sql_def count_sql_def score_marker_def squote_def occurrences_skip)

lemma occ_type_target:
  assumes "a \<in> set langs" and "l \<in> set langs"
  shows "occurrences type_marker (target_sql a l @ rest) = 1 + occurrences type_marker rest"
  using hole_chars [OF assms(1), of "CHR ''P''"] hole_chars [OF assms(2), of "CHR ''P''"]
  by (simp add: target_sql_def count_sql_def type_marker_def squote_def occurrences_skip)

lemma occ_sep:
  "occurrences subselect_marker (sql_sep @ rest) = 0 + occurrences subselect_marker rest"
  "occurrences sql_sep (sql_sep @ rest) = 1 + occurrences sql_sep rest"
  "occurrences accepted_marker (sql_sep @ rest) = 0 + occurrences accepted_marker rest"
  "occurrences score_marker (sql_sep @ rest) = 0 + occurrences score_marker rest"
  "occurrences type_marker (sql_sep @ rest) = 0 + occurrences type_marker rest"
  by (simp_all add: sql_sep_def subselect_marker_def accepted_marker_def score_marker_def type_marker_def)

lemma occ_header:
  "occurrences subselect_marker (sql_header @ rest) = occurrences subselect_marker rest"
  "occurrences sql_sep (sql_header @ rest) = occurrences sql_sep rest"
  "occurrences accepted_marker (sql_header @ rest) = occurrences accepted_marker rest"
  "occurrences score_marker (sql_header @ rest) = occurrences score_marker rest"
  "occurrences type_marker (sql_header @ rest) = occurrences type_marker rest"
  by (simp_all add: sql_header_def sql_sep_def subselect_marker_def accepted_marker_def
        score_marker_def type_marker_def)

lemma targets_subset: "l \<in> set (targets a) \<Longrightarrow> l \<in> set langs"
  by (simp add: targets_def)

lemma distinct_langs: "distinct langs"
  by (simp add: langs_eq)

lemma length_targets:
  assumes "a \<in> set langs"
  shows "length (targets a) = length langs - 1"
proof -
  have "length (filter (\<lambda>l. l \<noteq> a) langs) + length (filter (\<lambda>l. \<not> l \<noteq> a) langs) = length langs"
    by (rule sum_length_filter_compl)
  moreover have "length (filter (\<lambda>l. \<not> l \<noteq> a) langs) = 1"
    using assms distinct_langs
    by (simp add: distinct_length_filter)
  ultimately show ?thesis by (simp add: targets_def)
qed

section \<open>The end of the generated text\<close>

lemma join_with_last: "xs \<noteq> [] \<Longrightarrow> suffix (last xs) (join_with sep xs)"
proof (induction sep xs rule: join_with.induct)
  case (1 sep)
  then show ?case by simp
next
  case (2 sep x)
  show ?case by simp
next
  case (3 sep x y ys)
  then have "suffix (last (y # ys)) (join_with sep (y # ys))" by simp
  then have "suffix (last (y # ys)) ((x @ sep) @ join_with sep (y # ys))"
    by (rule suffix_appendI)
  then show ?case by simp
qed

lemma targets_nonempty: "a \<in> set langs \<Longrightarrow> targets a \<noteq> []"
  using length_targets [of a] by (auto simp: length_langs)

lemma last_target_in_langs: "a \<in> set langs \<Longrightarrow> last (targets a) \<in> set langs"
  using targets_nonempty [of a] targets_subset [of "last (targets a)" a] by simp

lemma build_ends_with_last:
  assumes "a \<in> set langs"
  shows "suffix (target_sql a (last (targets a))) (build_sql_expr a)"
proof -
  have ne: "map (target_sql a) (targets a) \<noteq> []"
    using targets_nonempty [OF assms] by simp
  have "suffix (last (map (target_sql a) (targets a))) (join_with sql_sep (map (target_sql a) (targets a)))"
    by (rule join_with_last [OF ne])
  then have "suffix (target_sql a (last (targets a))) (join_with sql_sep (map (target_sql a) (targets a)))"
    using targets_nonempty [OF assms] by (simp add: last_map)
  then show ?thesis
    unfolding build_structure by (rule suffix_appendI)
qed

lemma count_sql_where:
  "count_sql atag btag btext al =
     ''\<newline>'' @ indent12 @ subselect_marker @ al @
     ''\<newline>'' @ indent12 @ ''FROM `sotorrent-org.2018_12_09.Posts` P'' @
     ''\<newline>'' @ indent12 @ where_predicate indent12 atag btag btext @ '') AS '' @ al"
  by (simp add: count_sql_def where_predicate_def indent12_def subselect_marker_def)

lemma pair_sql_where:
  "pair_sql atag btag btext =
     ''\<newline>'' @ indent8 @ ''SELECT CONCAT('http://stackoverflow.com/q/', Cast(P.Id as string)) as URL, P.Title, P.ViewCount, P.Score, P.AcceptedAnswerId, P.Tags, P.Body'' @
     ''\<newline>'' @ indent8 @ ''FROM `sotorrent-org.2018_12_09.Posts` P'' @
     ''\<newline>'' @ indent8 @ where_predicate indent8 atag btag btext @
     ''\<newline>'' @ indent8 @ ''AND'' @
     ''\<newline>'' @ indent8 @ ''P.AcceptedAnswerId IS NOT NULL'' @
     ''\<newline>'' @ indent8"
  by (simp add: pair_sql_def where_predicate_def indent8_def)

lemma count_sql_ends: "\<exists>pre. count_sql atag btag btext al = pre @ al"
proof
  show "count_sql atag btag btext al =
     (''\<newline>'' @ indent12 @ subselect_marker @ al @
      ''\<newline>'' @ indent12 @ ''FROM `sotorrent-org.2018_12_09.Posts` P'' @
      ''\<newline>'' @ indent12 @ where_predicate indent12 atag btag btext @ '') AS '') @ al"
    by (simp add: count_sql_where)
qed

lemma build_no_trailing_sep:
  assumes "a \<in> set langs"
  shows "\<not> suffix sql_sep (build_sql_expr a)"
proof
  assume sep: "suffix sql_sep (build_sql_expr a)"
  define l where "l = last (targets a)"
  have l: "l \<in> set langs"
    unfolding l_def by (rule last_target_in_langs [OF assms])
  obtain zs where zs: "build_sql_expr a = zs @ target_sql a l"
    using build_ends_with_last [OF assms] unfolding l_def suffix_def by blast
  obtain pre where pre: "target_sql a l = pre @ alias_of l"
    unfolding target_sql_def using count_sql_ends by blast
  have "last (build_sql_expr a) = last (alias_of l)"
    unfolding zs pre using alias_nonempty [OF l] by simp
  then have "last (build_sql_expr a) \<in> set (alias_of l)"
    using alias_nonempty [OF l] by simp
  moreover have "last (build_sql_expr a) = CHR ''\<newline>''"
    using sep unfolding suffix_def sql_sep_def by auto
  ultimately show False
    using hole_chars(3) [OF l, of "CHR ''\<newline>''"] by simp
qed

lemma sorted_langs: "sorted langs"
  by (simp add: langs_def)

lemma last_langs: "last langs = ''visual basic''"
  by (simp add: langs_eq)

lemma last_targets_vb: "last (targets ''visual basic'') = ''swift''"
  by (simp add: targets_def langs_eq)

lemma vb_in_langs: "''visual basic'' \<in> set langs"
  by (simp add: langs_eq)

lemma distinct_alias: "distinct (map alias_of langs)"
  by (simp add: langs_eq alias_of_def remove_spaces_def lang_file_name_def)

lemma alias_space_free: "CHR '' '' \<notin> set (alias_of l)"
  by (simp add: alias_of_def remove_spaces_def)

section \<open>Occurrences of a tag pattern\<close>

lemma percent_free_all:
  "list_all (\<lambda>l. CHR ''%'' \<notin> set (fix_lang_text l) \<and> CHR ''%'' \<notin> set (alias_of l)) langs"
  unfolding langs_eq
  by (simp add: fix_lang_text_def alias_of_def remove_spaces_def lang_file_name_def bslash_def)

lemma percent_free:
  assumes "l \<in> set langs"
  shows "CHR ''%'' \<notin> set (fix_lang_text l)" and "CHR ''%'' \<notin> set (alias_of l)"
  using percent_free_all assms unfolding list_all_iff by blast+

lemma occurrences_no_cross:
  "no_cross p xs \<Longrightarrow> occurrences p (xs @ ys) = occurrences p xs + occurrences p ys"
proof (induction xs)
  case Nil
  show ?case by simp
next
  case (Cons c cs)
  have "prefix p (c # cs @ ys) \<longleftrightarrow> prefix p (c # cs)"
  proof
    assume l: "prefix p (c # cs @ ys)"
    have "prefix (c # cs) (c # cs @ ys)" by simp
    with l have "prefix p (c # cs) \<or> prefix (c # cs) p"
      by (rule prefix_same_cases)
    with Cons.prems show "prefix p (c # cs)" by auto
  next
    assume "prefix p (c # cs)"
    then have "prefix p ((c # cs) @ ys)" by (rule prefix_prefix)
    then show "prefix p (c # cs @ ys)" by simp
  qed
  with Cons show ?case by simp
qed

lemma tag_table_all:
  "list_all (\<lambda>lt. list_all (tag_row lt) langs)
     [(''visual basic'', ''vb.net''), (''node'', ''node.js''), (''objective c'', ''objective-c'')]"
  unfolding langs_eq
  by (simp add: tag_row_def tag_clear_def tag_pattern_def tag_langs_def squote_def)

lemma tag_langs_cases:
  assumes "tag_langs l = Some t"
  shows "(l, t) \<in> set [(''visual basic'', ''vb.net''), (''node'', ''node.js''), (''objective c'', ''objective-c'')]"
  using assms by (auto simp: tag_langs_def split: if_splits)

lemma tag_clear_append:
  assumes "tag_clear p n (s @ squote)"
  shows "occurrences p (s @ CHR 0x27 # ys) = n + occurrences p ys"
proof -
  have nc: "no_cross p (s @ squote)" and n: "occurrences p (s @ squote) = n"
    using assms by (simp_all add: tag_clear_def)
  have "occurrences p (s @ CHR 0x27 # ys) = occurrences p ((s @ squote) @ ys)"
    by (simp add: squote_def)
  also have "\<dots> = occurrences p (s @ squote) + occurrences p ys"
    using nc by (rule occurrences_no_cross)
  finally show ?thesis
    unfolding n .
qed

lemma tag_occurrences:
  assumes lt: "tag_langs l = Some t" and x: "x \<in> set langs"
  shows "occurrences (''%<'' @ t @ ''>%'') (tag_pattern x @ CHR 0x27 # ys)
           = (if x = l then 1 else 0) + occurrences (''%<'' @ t @ ''>%'') ys"
    and "occurrences (''%<'' @ l @ ''>%'') (tag_pattern x @ CHR 0x27 # ys)
           = 0 + occurrences (''%<'' @ l @ ''>%'') ys"
proof -
  have "list_all (tag_row (l, t)) langs"
    using tag_table_all tag_langs_cases [OF lt] unfolding list_all_iff by (rule bspec)
  then have "tag_row (l, t) x"
    using x unfolding list_all_iff by (rule bspec)
  then have r: "tag_clear (''%<'' @ t @ ''>%'') (if x = l then 1 else 0) (tag_pattern x @ squote)"
    "tag_clear (''%<'' @ l @ ''>%'') 0 (tag_pattern x @ squote)"
    by (simp_all add: tag_row_def)
  show "occurrences (''%<'' @ t @ ''>%'') (tag_pattern x @ CHR 0x27 # ys)
           = (if x = l then 1 else 0) + occurrences (''%<'' @ t @ ''>%'') ys"
    by (rule tag_clear_append [OF r(1)])
  show "occurrences (''%<'' @ l @ ''>%'') (tag_pattern x @ CHR 0x27 # ys)
           = 0 + occurrences (''%<'' @ l @ ''>%'') ys"
    by (rule tag_clear_append [OF r(2)])
qed

lemma occ_percent_count_sql:
  assumes na: "\<And>ys. occurrences (CHR ''%'' # q) (atag @ CHR 0x27 # ys) = m + occurrences (CHR ''%'' # q) ys"
    and nb: "\<And>ys. occurrences (CHR ''%'' # q) (btag @ CHR 0x27 # ys) = n + occurrences (CHR ''%'' # q) ys"
    and "CHR ''%'' \<notin> set btext" and "CHR ''%'' \<notin> set al"
  shows "occurrences (CHR ''%'' # q) (count_sql atag btag btext al @ rest)
           = (2 * m + n) + occurrences (CHR ''%'' # q) rest"
  using assms(3,4)
  by (simp add: count_sql_def squote_def occurrences_skip na nb)

lemma occ_percent_pair_sql:
  assumes na: "\<And>ys. occurrences (CHR ''%'' # q) (atag @ CHR 0x27 # ys) = m + occurrences (CHR ''%'' # q) ys"
    and nb: "\<And>ys. occurrences (CHR ''%'' # q) (btag @ CHR 0x27 # ys) = n + occurrences (CHR ''%'' # q) ys"
    and "CHR ''%'' \<notin> set btext"
  shows "occurrences (CHR ''%'' # q) (pair_sql atag btag btext) = 2 * m + n"
  using assms(3)
  by (simp add: pair_sql_def squote_def occurrences_skip na nb)

lemma occ_percent_fixed:
  "occurrences (CHR ''%'' # q) (sql_sep @ rest) = occurrences (CHR ''%'' # q) rest"
  "occurrences (CHR ''%'' # q) (sql_header @ rest) = occurrences (CHR ''%'' # q) rest"
  by (simp_all add: sql_sep_def sql_header_def)

lemma occurrences_join_sum:
  assumes sep: "\<And>rest. occurrences p (sep @ rest) = occurrences p rest"
    and piece: "\<And>x rest. x \<in> set xs \<Longrightarrow> occurrences p (g x @ rest) = f x + occurrences p rest"
  shows "occurrences p (join_with sep (map g xs) @ rest) = sum_list (map f xs) + occurrences p rest"
  using piece
proof (induction xs rule: induct_list012)
  case 1
  show ?case by simp
next
  case (2 x)
  then show ?case by simp
next
  case (3 x y zs)
  have "occurrences p (join_with sep (map g (x # y # zs)) @ rest)
          = f x + occurrences p (join_with sep (map g (y # zs)) @ rest)"
    using "3.prems" [of x] sep by simp
  also have "occurrences p (join_with sep (map g (y # zs)) @ rest)
          = sum_list (map f (y # zs)) + occurrences p rest"
    using "3.IH"(2) "3.prems" by simp
  finally show ?case by simp
qed

lemma sum_list_filter_other:
  fixes m :: "string \<Rightarrow> nat"
  shows "m a = 0 \<Longrightarrow> sum_list (map m (filter (\<lambda>x. x \<noteq> a) xs)) = sum_list (map m xs)"
  by (induction xs) auto

lemma sum_list_indicator_removed:
  "sum_list (map (\<lambda>x. if x = l then 1 else (0::nat)) (filter (\<lambda>x. x \<noteq> l) xs)) = 0"
  by (induction xs) auto

lemma sum_list_indicator_all:
  "list_all (\<lambda>lt. sum_list (map (\<lambda>x. if x = fst lt then 1 else (0::nat)) langs) = 1)
     [(''visual basic'', ''vb.net''), (''node'', ''node.js''), (''objective c'', ''objective-c'')]"
  unfolding langs_eq by simp

lemma sum_list_indicator_langs:
  assumes "tag_langs l = Some t"
  shows "sum_list (map (\<lambda>x. if x = l then 1 else (0::nat)) langs) = 1"
proof -
  have "sum_list (map (\<lambda>x. if x = fst (l, t) then 1 else (0::nat)) langs) = 1"
    using sum_list_indicator_all tag_langs_cases [OF assms] unfolding list_all_iff by (rule bspec)
  then show ?thesis by simp
qed

section \<open>Counts over the whole statement\<close>

lemma occurrences_build:
  assumes a: "a \<in> set langs"
    and piece: "\<And>l rest. l \<in> set (targets a) \<Longrightarrow> occurrences p (target_sql a l @ rest) = k + occurrences p rest"
    and sep: "\<And>rest. occurrences p (sql_sep @ rest) = j + occurrences p rest"
    and header: "\<And>rest. occurrences p (sql_header @ rest) = occurrences p rest"
  shows "occurrences p (build_sql_expr a) = k * (length langs - 1) + j * (length langs - 2)"
proof -
  have "occurrences p (join_with sql_sep (map (target_sql a) (targets a)) @ [])
          = k * length (map (target_sql a) (targets a)) + j * (length (map (target_sql a) (targets a)) - 1)
            + occurrences p []"
    by (rule occurrences_join [OF sep]) (auto intro: piece)
  then show ?thesis
    by (simp add: build_structure header length_targets [OF a] numeral_2_eq_2)
qed

lemma count_subselects:
  "a \<in> set langs \<Longrightarrow> occurrences subselect_marker (build_sql_expr a) = length langs - 1"
  using occurrences_build [of a subselect_marker 1 0] 
  by (simp add: occ_marker_target targets_subset occ_sep occ_header)

lemma count_separators:
  "a \<in> set langs \<Longrightarrow> occurrences sql_sep (build_sql_expr a) = length langs - 2"
  using occurrences_build [of a sql_sep 0 1] 
  by (simp add: occ_sep_target targets_subset occ_sep occ_header)

lemma count_accepted:
  "a \<in> set langs \<Longrightarrow> occurrences accepted_marker (build_sql_expr a) = 0"
  using occurrences_build [of a accepted_marker 0 0] 
  by (simp add: occ_accepted_target targets_subset occ_sep occ_header)

lemma count_score:
  "a \<in> set langs \<Longrightarrow> occurrences score_marker (build_sql_expr a) = length langs - 1"
  using occurrences_build [of a score_marker 1 0] 
  by (simp add: occ_score_target targets_subset occ_sep occ_header)

lemma count_type:
  "a \<in> set langs \<Longrightarrow> occurrences type_marker (build_sql_expr a) = length langs - 1"
  using occurrences_build [of a type_marker 1 0] 
  by (simp add: occ_type_target targets_subset occ_sep occ_header)

lemma occurrences_build_tag:
  assumes a: "a \<in> set langs"
    and tag: "\<And>x ys. x \<in> set langs \<Longrightarrow>
        occurrences (CHR ''%'' # q) (tag_pattern x @ CHR 0x27 # ys) = m x + occurrences (CHR ''%'' # q) ys"
  shows "occurrences (CHR ''%'' # q) (build_sql_expr a)
           = 2 * m a * (length langs - 1) + sum_list (map m (targets a))"
proof -
  have piece: "occurrences (CHR ''%'' # q) (target_sql a x @ rest)
                 = (2 * m a + m x) + occurrences (CHR ''%'' # q) rest"
    if "x \<in> set (targets a)" for x rest
  proof -
    have x: "x \<in> set langs" using that by (rule targets_subset)
    show ?thesis
      unfolding target_sql_def
      by (rule occ_percent_count_sql [OF tag [OF a] tag [OF x] percent_free [OF x]])
  qed
  have "occurrences (CHR ''%'' # q) (join_with sql_sep (map (target_sql a) (targets a)) @ [])
          = sum_list (map (\<lambda>x. 2 * m a + m x) (targets a)) + occurrences (CHR ''%'' # q) []"
    by (rule occurrences_join_sum [OF occ_percent_fixed(1) piece])
  moreover have "sum_list (map (\<lambda>x. 2 * m a + m x) (targets a))
          = 2 * m a * length (targets a) + sum_list (map m (targets a))"
    by (induction "targets a" rule: list.induct) (simp_all add: sum_list_addf sum_list_triv)
  ultimately show ?thesis
    by (simp add: build_structure occ_percent_fixed(2) length_targets [OF a])
qed

section \<open>The lookup helpers\<close>

text \<open>
  Claim C7. \<open>lang_file_name\<close> and \<open>revert_lang_file_name\<close> are inverse to each other on the
  four override pairs (c# and cs, c++ and cpp, objective c and objectivec, visual basic and
  visualbasic); converting a language of the list to its token and back gives the language
  again; and on a language of the list that has no override both functions are the identity.
\<close>
theorem file_name_round_trip:
  "(lang_file_name ''c#'' = ''cs'' \<and> revert_lang_file_name ''cs'' = ''c#'')
   \<and> (lang_file_name ''c++'' = ''cpp'' \<and> revert_lang_file_name ''cpp'' = ''c++'')
   \<and> (lang_file_name ''objective c'' = ''objectivec'' \<and> revert_lang_file_name ''objectivec'' = ''objective c'')
   \<and> (lang_file_name ''visual basic'' = ''visualbasic'' \<and> revert_lang_file_name ''visualbasic'' = ''visual basic'')
   \<and> (x \<in> set langs \<longrightarrow> revert_lang_file_name (lang_file_name x) = x)
   \<and> (x \<in> set langs \<longrightarrow> x \<notin> {''c#'', ''c++'', ''objective c'', ''visual basic''} \<longrightarrow>
         lang_file_name x = x \<and> revert_lang_file_name x = x)"
  by (auto simp: lang_file_name_def revert_lang_file_name_def langs_eq)

theorem file_name_round_trip_witness:
  "''python'' \<in> set langs \<and> ''python'' \<notin> {''c#'', ''c++'', ''objective c'', ''visual basic''}
   \<and> lang_file_name ''python'' = ''python'' \<and> revert_lang_file_name ''python'' = ''python''
   \<and> revert_lang_file_name (lang_file_name ''python'') = ''python''"
  using file_name_round_trip [of "''python''"] by (simp add: langs_eq)

text \<open>
  Claim C8. For \<open>c\<close>, \<open>r\<close> and \<open>go\<close> the function \<open>fix_lang_text\<close> returns the pattern of
  the phrase "in c", "in r", "in go" between a slash, backslash, b and a backslash, b, slash;
  for every other argument it returns the argument itself between the same delimiters.
\<close>
theorem fix_lang_text_patterns:
  "fix_lang_text ''c'' = [CHR ''/'', CHR 0x5C] @ ''bin c'' @ [CHR 0x5C] @ ''b/''
   \<and> fix_lang_text ''r'' = [CHR ''/'', CHR 0x5C] @ ''bin r'' @ [CHR 0x5C] @ ''b/''
   \<and> fix_lang_text ''go'' = [CHR ''/'', CHR 0x5C] @ ''bin go'' @ [CHR 0x5C] @ ''b/''
   \<and> (lang \<notin> {''c'', ''r'', ''go''} \<longrightarrow>
         fix_lang_text lang = [CHR ''/'', CHR 0x5C, CHR ''b''] @ lang @ [CHR 0x5C, CHR ''b'', CHR ''/''])"
  by (simp add: fix_lang_text_def bslash_def)

theorem fix_lang_text_patterns_witness:
  "''c++'' \<notin> {''c'', ''r'', ''go''}
   \<and> fix_lang_text ''c++'' = [CHR ''/'', CHR 0x5C, CHR ''b'', CHR ''c'', CHR ''+'', CHR ''+'', CHR 0x5C, CHR ''b'', CHR ''/'']"
  using fix_lang_text_patterns [of "''c++''"] by simp

text \<open>
  Claim C9. The pairs that \<open>query_pairs\<close> hands to \<open>query_language_pair\<close>, obtained by
  zipping the two hardcoded lists and converting both components with
  \<open>revert_lang_file_name\<close>, are the fifteen pairs of the docstring in canonical names and in
  the docstring's order; the zipped token list is the docstring's table, and the files written
  are named after the tokens again.
\<close>
theorem query_pairs_canonical:
  "query_pairs_args =
     [(''c'', ''c++''), (''c#'', ''visual basic''), (''clojure'', ''java''), (''java'', ''c#''),
      (''kotlin'', ''java''), (''lua'', ''c++''), (''matlab'', ''python''), (''node'', ''php''),
      (''objective c'', ''swift''), (''perl'', ''python''), (''php'', ''java''), (''python'', ''c++''),
      (''r'', ''python''), (''ruby'', ''python''), (''scala'', ''java'')]
   \<and> zip prev_tokens target_tokens = documented_pairs
   \<and> length query_pairs_args = 15
   \<and> map csv_path query_pairs = map (\<lambda>(p, t). DIR @ ''/'' @ p @ ''_'' @ t @ ''.csv'') documented_pairs"
  by (simp add: query_pairs_args_def query_pairs_def prev_tokens_def target_tokens_def documented_pairs_def
        revert_lang_file_name_def query_language_pair_def lang_file_name_def Let_def)

text \<open>
  Claim C10. A string that is not one of the four names \<open>lang_file_name\<close> tests for is
  returned unchanged by it, and a string that is not one of the four tokens
  \<open>revert_lang_file_name\<close> tests for is returned unchanged by that. Both functions are total
  on strings: the source has no branch that raises.
\<close>
theorem unknown_names_identity:
  "(s \<notin> {''c#'', ''c++'', ''objective c'', ''visual basic''} \<longrightarrow> lang_file_name s = s)
   \<and> (s \<notin> {''cs'', ''cpp'', ''objectivec'', ''visualbasic''} \<longrightarrow> revert_lang_file_name s = s)"
  by (simp add: lang_file_name_def revert_lang_file_name_def)

theorem unknown_names_identity_witness:
  "''typescript'' \<notin> {''c#'', ''c++'', ''objective c'', ''visual basic''}
   \<and> ''typescript'' \<notin> {''cs'', ''cpp'', ''objectivec'', ''visualbasic''}
   \<and> lang_file_name ''typescript'' = ''typescript''
   \<and> revert_lang_file_name ''typescript'' = ''typescript''"
  using unknown_names_identity [of "''typescript''"] by simp

text \<open>
  Claim C5. For \<open>a = python\<close> and \<open>b = c++\<close> the statement sent by \<open>query_language_pair\<close>
  is the text below: its WHERE clause is the disjunction of "tagged python and tagged c++"
  and "tagged python and title or body like the word-boundary pattern of c++", conjoined
  with a non-negative score and a non-null accepted answer. The CSV file is
  \<open>python_cpp.csv\<close> under the given path.
\<close>
theorem pair_query_python_cpp:
  "sql (query_language_pair ''python'' ''c++'' path) =
    ''\<newline>        SELECT CONCAT('http://stackoverflow.com/q/', Cast(P.Id as string)) as URL, P.Title, P.ViewCount, P.Score, P.AcceptedAnswerId, P.Tags, P.Body'' @
    ''\<newline>        FROM `sotorrent-org.2018_12_09.Posts` P'' @
    ''\<newline>        WHERE P.PostTypeId = 1 AND ('' @
    ''\<newline>        (P.Tags LIKE '%<python>%' AND P.Tags LIKE '%<c++>%')'' @
    ''\<newline>        OR'' @
    ''\<newline>        (P.Tags LIKE '%<python>%' AND (P.Title LIKE '/'' @ [CHR 0x5C] @ ''bc++'' @ [CHR 0x5C] @ ''b/' OR P.Body LIKE '/'' @ [CHR 0x5C] @ ''bc++'' @ [CHR 0x5C] @ ''b/'))'' @
    ''\<newline>        )'' @
    ''\<newline>        AND'' @
    ''\<newline>        P.Score >= 0'' @
    ''\<newline>        AND'' @
    ''\<newline>        P.AcceptedAnswerId IS NOT NULL'' @
    ''\<newline>        ''
   \<and> csv_path (query_language_pair ''python'' ''c++'' path) = path @ ''/'' @ ''python_cpp.csv''
   \<and> csv_path (query_language_pair ''python'' ''c++'' default_path) = ''.//python_cpp.csv''"
  by (simp add: query_language_pair_def Let_def pair_sql_def tag_langs_def fix_lang_text_def
        lang_file_name_def bslash_def squote_def default_path_def)

section \<open>The statement built for all targets\<close>

text \<open>
  Claim C1, as the code has it. For the last language of the sorted list, \<open>visual basic\<close>,
  \<open>build_sql_expr\<close> drops no subselect: the text contains one subselect for each of the
  other \<open>len(langs) - 1\<close> languages and \<open>len(langs) - 2\<close> separators, it ends with the
  subselect of \<open>swift\<close>, the last target, and no separator follows it.
\<close>
theorem last_language_keeps_all_subselects:
  "last langs = ''visual basic''
   \<and> occurrences subselect_marker (build_sql_expr ''visual basic'') = length langs - 1
   \<and> occurrences sql_sep (build_sql_expr ''visual basic'') = length langs - 2
   \<and> last (targets ''visual basic'') = ''swift''
   \<and> suffix (target_sql ''visual basic'' ''swift'') (build_sql_expr ''visual basic'')
   \<and> \<not> suffix sql_sep (build_sql_expr ''visual basic'')"
  using count_subselects [OF vb_in_langs] count_separators [OF vb_in_langs]
    build_ends_with_last [OF vb_in_langs] build_no_trailing_sep [OF vb_in_langs]
  by (simp add: last_langs last_targets_vb)

text \<open>
  The number of subselects generated for \<open>visual basic\<close> is not \<open>len(langs) - 2\<close>.
\<close>
theorem last_language_drops_subselect_counterexample:
  "occurrences subselect_marker (build_sql_expr ''visual basic'') \<noteq> length langs - 2"
  using count_subselects [OF vb_in_langs] by (simp add: length_langs)

text \<open>
  Claim C2. For every language \<open>a\<close> of the list, the text of \<open>build_sql_expr a\<close> is the
  header followed by the subselects of the languages other than \<open>a\<close>, in the order of the
  sorted list, with the separator between consecutive subselects and nowhere else: there
  are \<open>len(langs) - 1\<close> subselects and \<open>len(langs) - 2\<close> separators, the text ends with the
  last subselect and not with a separator, and for \<open>visual basic\<close> the last subselect is
  the one of \<open>swift\<close>.
\<close>
theorem all_targets_layout:
  assumes "a \<in> set langs"
  shows "build_sql_expr a = sql_header @ join_with sql_sep (map (target_sql a) (targets a))
   \<and> targets a = filter (\<lambda>l. l \<noteq> a) langs
   \<and> sorted langs
   \<and> length (targets a) = length langs - 1
   \<and> occurrences subselect_marker (build_sql_expr a) = length langs - 1
   \<and> occurrences sql_sep (build_sql_expr a) = length langs - 2
   \<and> suffix (target_sql a (last (targets a))) (build_sql_expr a)
   \<and> \<not> suffix sql_sep (build_sql_expr a)
   \<and> (a = ''visual basic'' \<longrightarrow> last (targets a) = ''swift'')"
proof -
  have vb: "a = ''visual basic'' \<longrightarrow> last (targets a) = ''swift''"
    by (simp add: last_targets_vb)
  have tg: "targets a = filter (\<lambda>l. l \<noteq> a) langs"
    by (simp add: targets_def)
  show ?thesis
    by (intro conjI)
      (fact build_structure tg sorted_langs length_targets [OF assms] count_subselects [OF assms]
         count_separators [OF assms] build_ends_with_last [OF assms] build_no_trailing_sep [OF assms] vb)+
qed

theorem all_targets_layout_witness:
  "''visual basic'' \<in> set langs
   \<and> occurrences subselect_marker (build_sql_expr ''visual basic'') = 25
   \<and> occurrences sql_sep (build_sql_expr ''visual basic'') = 24
   \<and> last (targets ''visual basic'') = ''swift''
   \<and> suffix (target_sql ''visual basic'' ''swift'') (build_sql_expr ''visual basic'')"
proof -
  have h: "''visual basic'' \<in> set langs"
    by (simp add: langs_eq)
  from all_targets_layout [OF h]
  have "occurrences subselect_marker (build_sql_expr ''visual basic'') = length langs - 1"
    and "occurrences sql_sep (build_sql_expr ''visual basic'') = length langs - 2"
    and "suffix (target_sql ''visual basic'' (last (targets ''visual basic''))) (build_sql_expr ''visual basic'')"
    and "last (targets ''visual basic'') = ''swift''"
    by blast+
  then show ?thesis
    using h by (simp add: length_langs)
qed

text \<open>
  Claim C3, as the code has it. Every subselect of the count query has the WHERE clause
  of the pair query up to the score condition (question posts, the two tag conditions,
  a non-negative score), with the target's own tag and text pattern, and stops there: the
  pair query goes on with the condition on \<open>AcceptedAnswerId\<close>, and for a language \<open>a\<close> of
  the list the text of \<open>build_sql_expr a\<close> mentions \<open>AcceptedAnswerId\<close> nowhere.
\<close>
theorem count_subselect_predicate:
  assumes "a \<in> set langs"
  shows "build_sql_expr a = sql_header @ join_with sql_sep (map (target_sql a) (targets a))
   \<and> target_sql a l =
        ''\<newline>'' @ indent12 @ subselect_marker @ alias_of l @
        ''\<newline>'' @ indent12 @ ''FROM `sotorrent-org.2018_12_09.Posts` P'' @
        ''\<newline>'' @ indent12 @ where_predicate indent12 (tag_pattern a) (tag_pattern l) (fix_lang_text l) @
        '') AS '' @ alias_of l
   \<and> sql (query_language_pair a l path) =
        ''\<newline>'' @ indent8 @ ''SELECT CONCAT('http://stackoverflow.com/q/', Cast(P.Id as string)) as URL, P.Title, P.ViewCount, P.Score, P.AcceptedAnswerId, P.Tags, P.Body'' @
        ''\<newline>'' @ indent8 @ ''FROM `sotorrent-org.2018_12_09.Posts` P'' @
        ''\<newline>'' @ indent8 @ where_predicate indent8 (tag_pattern a) (tag_pattern l) (fix_lang_text l) @
        ''\<newline>'' @ indent8 @ ''AND'' @
        ''\<newline>'' @ indent8 @ ''P.AcceptedAnswerId IS NOT NULL'' @
        ''\<newline>'' @ indent8
   \<and> occurrences type_marker (build_sql_expr a) = length langs - 1
   \<and> occurrences score_marker (build_sql_expr a) = length langs - 1
   \<and> occurrences accepted_marker (build_sql_expr a) = 0"
proof -
  have q: "sql (query_language_pair a l path) = pair_sql (tag_pattern a) (tag_pattern l) (fix_lang_text l)"
    by (simp add: query_language_pair_def Let_def tag_pattern_def)
  show ?thesis
    unfolding q target_sql_def [of a l]
    by (intro conjI)
      (fact build_structure count_sql_where pair_sql_where count_type [OF assms] count_score [OF assms]
         count_accepted [OF assms])+
qed

theorem count_subselect_predicate_witness:
  "''python'' \<in> set langs
   \<and> occurrences type_marker (build_sql_expr ''python'') = 25
   \<and> occurrences score_marker (build_sql_expr ''python'') = 25
   \<and> occurrences accepted_marker (build_sql_expr ''python'') = 0"
proof -
  have h: "''python'' \<in> set langs"
    by (simp add: langs_eq)
  from count_subselect_predicate [OF h]
  have "occurrences type_marker (build_sql_expr ''python'') = length langs - 1"
    and "occurrences score_marker (build_sql_expr ''python'') = length langs - 1"
    and "occurrences accepted_marker (build_sql_expr ''python'') = 0"
    by blast+
  then show ?thesis
    using h by (simp add: length_langs)
qed

text \<open>
  For \<open>a = python\<close> neither the subselect of the target \<open>c++\<close> nor the whole statement
  mentions \<open>AcceptedAnswerId\<close>.
\<close>
theorem count_subselect_accepted_counterexample:
  "''c++'' \<in> set (targets ''python'')
   \<and> occurrences accepted_marker (target_sql ''python'' ''c++'') = 0
   \<and> occurrences accepted_marker (build_sql_expr ''python'') = 0"
proof -
  have py: "''python'' \<in> set langs" and cpp: "''c++'' \<in> set langs"
    by (simp_all add: langs_eq)
  have "occurrences accepted_marker (target_sql ''python'' ''c++'' @ []) = occurrences accepted_marker []"
    by (rule occ_accepted_target [OF py cpp])
  then show ?thesis
    using count_accepted [OF py] cpp by (simp add: targets_def)
qed

text \<open>
  Claim C4. For a language \<open>a\<close> of the list other than the last one, \<open>build_sql_expr a\<close> is
  the header followed by one subselect for each language \<open>l\<close> other than \<open>a\<close>, in the order
  of the sorted list, joined by the separator: \<open>len(langs) - 1\<close> subselects. The subselect
  of \<open>l\<close> is named, after both of its \<open>AS\<close>, by \<open>lang_file_name l\<close> with the spaces
  removed; these aliases contain no space and are pairwise distinct.
\<close>
theorem all_targets_sorted_aliases:
  assumes "a \<in> set langs" and "a \<noteq> last langs"
  shows "build_sql_expr a =
       sql_header @ join_with sql_sep
         (map (\<lambda>l. count_sql (tag_pattern a) (tag_pattern l) (fix_lang_text l) (remove_spaces (lang_file_name l)))
              (filter (\<lambda>l. l \<noteq> a) langs))
   \<and> sorted (filter (\<lambda>l. l \<noteq> a) langs)
   \<and> set (filter (\<lambda>l. l \<noteq> a) langs) = set langs - {a}
   \<and> length (filter (\<lambda>l. l \<noteq> a) langs) = length langs - 1
   \<and> occurrences subselect_marker (build_sql_expr a) = length langs - 1
   \<and> distinct (map (\<lambda>l. remove_spaces (lang_file_name l)) (filter (\<lambda>l. l \<noteq> a) langs))
   \<and> CHR '' '' \<notin> set (remove_spaces (lang_file_name l))
   \<and> prefix (''\<newline>            (SELECT COUNT(distinct P.Id) AS '' @ remove_spaces (lang_file_name l) @ ''\<newline>'')
         (count_sql (tag_pattern a) (tag_pattern l) (fix_lang_text l) (remove_spaces (lang_file_name l)))
   \<and> suffix (''P.Score >= 0) AS '' @ remove_spaces (lang_file_name l))
         (count_sql (tag_pattern a) (tag_pattern l) (fix_lang_text l) (remove_spaces (lang_file_name l)))"
proof -
  have st: "build_sql_expr a =
       sql_header @ join_with sql_sep
         (map (\<lambda>l. count_sql (tag_pattern a) (tag_pattern l) (fix_lang_text l) (remove_spaces (lang_file_name l)))
              (filter (\<lambda>l. l \<noteq> a) langs))"
    unfolding build_structure [of a] targets_def target_sql_def [abs_def] alias_of_def
    by (rule refl)
  have s: "sorted (filter (\<lambda>l. l \<noteq> a) langs)"
    using sorted_langs by (rule sorted_wrt_filter)
  have m: "set (filter (\<lambda>l. l \<noteq> a) langs) = set langs - {a}"
    by auto
  have n: "length (filter (\<lambda>l. l \<noteq> a) langs) = length langs - 1"
    using length_targets [OF assms(1)] by (simp add: targets_def)
  have d: "distinct (map (\<lambda>l. remove_spaces (lang_file_name l)) (filter (\<lambda>l. l \<noteq> a) langs))"
    using distinct_map_filter [OF distinct_alias, of "\<lambda>l. l \<noteq> a"]
    unfolding alias_of_def [abs_def] .
  have sp: "CHR '' '' \<notin> set (remove_spaces (lang_file_name l))"
    by (simp add: remove_spaces_def)
  have pre: "prefix (''\<newline>            (SELECT COUNT(distinct P.Id) AS '' @ remove_spaces (lang_file_name l) @ ''\<newline>'')
               (count_sql (tag_pattern a) (tag_pattern l) (fix_lang_text l) (remove_spaces (lang_file_name l)))"
    by (simp add: count_sql_def)
  have suf: "suffix (''P.Score >= 0) AS '' @ remove_spaces (lang_file_name l))
               (count_sql (tag_pattern a) (tag_pattern l) (fix_lang_text l) (remove_spaces (lang_file_name l)))"
    unfolding count_sql_def suffix_def
    by (intro exI [of _ "''\<newline>            (SELECT COUNT(distinct P.Id) AS '' @ remove_spaces (lang_file_name l) @
         ''\<newline>            FROM `sotorrent-org.2018_12_09.Posts` P'' @
         ''\<newline>            WHERE P.PostTypeId = 1 AND ('' @
         ''\<newline>            (P.Tags LIKE '' @ squote @ tag_pattern a @ squote @ '' AND P.Tags LIKE '' @ squote @ tag_pattern l @ squote @ '')'' @
         ''\<newline>            OR'' @
         ''\<newline>            (P.Tags LIKE '' @ squote @ tag_pattern a @ squote @ '' AND (P.Title LIKE '' @ squote @ fix_lang_text l @ squote @ '' OR P.Body LIKE '' @ squote @ fix_lang_text l @ squote @ ''))'' @
         ''\<newline>            )'' @
         ''\<newline>            AND'' @
         ''\<newline>            ''"]) simp
  show ?thesis
    by (intro conjI) (fact st s m n count_subselects [OF assms(1)] d sp pre suf)+
qed

theorem all_targets_sorted_aliases_witness:
  "''python'' \<in> set langs \<and> ''python'' \<noteq> last langs
   \<and> length (filter (\<lambda>l. l \<noteq> ''python'') langs) = 25
   \<and> occurrences subselect_marker (build_sql_expr ''python'') = 25
   \<and> distinct (map (\<lambda>l. remove_spaces (lang_file_name l)) (filter (\<lambda>l. l \<noteq> ''python'') langs))"
proof -
  have h: "''python'' \<in> set langs" and h': "''python'' \<noteq> last langs"
    by (simp_all add: langs_eq)
  from all_targets_sorted_aliases [OF h h']
  have "length (filter (\<lambda>l. l \<noteq> ''python'') langs) = length langs - 1"
    and "occurrences subselect_marker (build_sql_expr ''python'') = length langs - 1"
    and "distinct (map (\<lambda>l. remove_spaces (lang_file_name l)) (filter (\<lambda>l. l \<noteq> ''python'') langs))"
    by blast+
  then show ?thesis
    using h h' by (simp add: length_langs)
qed

text \<open>
  Claim C6. The map \<open>tag_langs\<close> sends \<open>visual basic\<close> to \<open>vb.net\<close>, \<open>node\<close> to
  \<open>node.js\<close> and \<open>objective c\<close> to \<open>objective-c\<close>, and nothing else. For a language \<open>l\<close>
  that it sends to \<open>t\<close>, both builders put \<open>t\<close> between \<open>%<\<close> and \<open>>%\<close> wherever they use
  the tag of \<open>l\<close>, and never the name \<open>l\<close> itself. In the text built for a source \<open>a\<close> of
  the list, the pattern with \<open>t\<close> occurs twice in every subselect if \<open>a\<close> is \<open>l\<close>, and
  exactly once, in the subselect of the target \<open>l\<close>, if \<open>a\<close> is another language; in the
  pair query for languages \<open>a\<close> and \<open>b\<close> of the list it occurs twice if \<open>a\<close> is \<open>l\<close> plus
  once if \<open>b\<close> is \<open>l\<close>. The pattern with the bare name \<open>l\<close> occurs in none of these
  texts.
\<close>
theorem tag_override_used:
  assumes "tag_langs l = Some t"
  shows "(l, t) \<in> {(''visual basic'', ''vb.net''), (''node'', ''node.js''), (''objective c'', ''objective-c'')}
   \<and> tag_langs ''visual basic'' = Some ''vb.net''
   \<and> tag_langs ''node'' = Some ''node.js''
   \<and> tag_langs ''objective c'' = Some ''objective-c''
   \<and> sql (query_language_pair l b path) = pair_sql (''%<'' @ t @ ''>%'') (tag_pattern b) (fix_lang_text b)
   \<and> sql (query_language_pair a l path) = pair_sql (tag_pattern a) (''%<'' @ t @ ''>%'') (fix_lang_text l)
   \<and> build_sql_expr l = sql_header @ join_with sql_sep
        (map (\<lambda>x. count_sql (''%<'' @ t @ ''>%'') (tag_pattern x) (fix_lang_text x) (alias_of x)) (targets l))
   \<and> build_sql_expr a = sql_header @ join_with sql_sep (map (target_sql a) (targets a))
   \<and> target_sql a l = count_sql (tag_pattern a) (''%<'' @ t @ ''>%'') (fix_lang_text l) (alias_of l)
   \<and> (a \<noteq> l \<longrightarrow> l \<in> set (targets a))
   \<and> (a \<in> set langs \<longrightarrow>
         occurrences (''%<'' @ t @ ''>%'') (build_sql_expr a) = (if a = l then 2 * (length langs - 1) else 1)
         \<and> occurrences (''%<'' @ l @ ''>%'') (build_sql_expr a) = 0)
   \<and> (a \<in> set langs \<longrightarrow> b \<in> set langs \<longrightarrow>
         occurrences (''%<'' @ t @ ''>%'') (sql (query_language_pair a b path))
           = (if a = l then 2 else 0) + (if b = l then 1 else 0)
         \<and> occurrences (''%<'' @ l @ ''>%'') (sql (query_language_pair a b path)) = 0)"
proof -
  have tp: "tag_pattern l = ''%<'' @ t @ ''>%''"
    using assms by (simp add: tag_pattern_def)
  have mem: "(l, t) \<in> {(''visual basic'', ''vb.net''), (''node'', ''node.js''), (''objective c'', ''objective-c'')}"
    using tag_langs_cases [OF assms] by simp
  have l: "l \<in> set langs"
    using mem by (auto simp: langs_eq)
  have tl: "tag_langs ''visual basic'' = Some ''vb.net''" "tag_langs ''node'' = Some ''node.js''"
    "tag_langs ''objective c'' = Some ''objective-c''"
    by (simp_all add: tag_langs_def)
  have q: "\<And>x y. sql (query_language_pair x y path) = pair_sql (tag_pattern x) (tag_pattern y) (fix_lang_text y)"
    by (simp add: query_language_pair_def Let_def tag_pattern_def)
  have q1: "sql (query_language_pair l b path) = pair_sql (''%<'' @ t @ ''>%'') (tag_pattern b) (fix_lang_text b)"
    unfolding q tp by (rule refl)
  have q2: "sql (query_language_pair a l path) = pair_sql (tag_pattern a) (''%<'' @ t @ ''>%'') (fix_lang_text l)"
    unfolding q tp by (rule refl)
  have bs: "build_sql_expr l = sql_header @ join_with sql_sep
        (map (\<lambda>x. count_sql (''%<'' @ t @ ''>%'') (tag_pattern x) (fix_lang_text x) (alias_of x)) (targets l))"
    unfolding build_structure [of l] target_sql_def [abs_def] tp by (rule refl)
  have ts: "target_sql a l = count_sql (tag_pattern a) (''%<'' @ t @ ''>%'') (fix_lang_text l) (alias_of l)"
    unfolding target_sql_def tp by (rule refl)
  have tg: "a \<noteq> l \<longrightarrow> l \<in> set (targets a)"
    using l by (simp add: targets_def)
  have over: "occurrences (CHR ''%'' # ''<'' @ t @ ''>%'') (tag_pattern x @ CHR 0x27 # ys)
        = (if x = l then 1 else 0) + occurrences (CHR ''%'' # ''<'' @ t @ ''>%'') ys"
    if "x \<in> set langs" for x ys
    using tag_occurrences(1) [OF assms that, of ys] by simp
  have plain: "occurrences (CHR ''%'' # ''<'' @ l @ ''>%'') (tag_pattern x @ CHR 0x27 # ys)
        = (\<lambda>x. 0) x + occurrences (CHR ''%'' # ''<'' @ l @ ''>%'') ys"
    if "x \<in> set langs" for x ys
    using tag_occurrences(2) [OF assms that, of ys] by simp
  have build: "a \<in> set langs \<longrightarrow>
         occurrences (''%<'' @ t @ ''>%'') (build_sql_expr a) = (if a = l then 2 * (length langs - 1) else 1)
         \<and> occurrences (''%<'' @ l @ ''>%'') (build_sql_expr a) = 0"
  proof
    assume a: "a \<in> set langs"
    have s: "sum_list (map (\<lambda>x. if x = l then 1 else (0::nat)) (targets a)) = (if a = l then 0 else 1)"
      unfolding targets_def
      by (simp add: sum_list_indicator_removed sum_list_filter_other sum_list_indicator_langs [OF assms])
    have "occurrences (CHR ''%'' # ''<'' @ t @ ''>%'') (build_sql_expr a)
            = 2 * (if a = l then 1 else 0) * (length langs - 1)
              + sum_list (map (\<lambda>x. if x = l then 1 else 0) (targets a))"
      by (rule occurrences_build_tag [OF a over])
    moreover have "occurrences (CHR ''%'' # ''<'' @ l @ ''>%'') (build_sql_expr a)
            = 2 * (\<lambda>x. 0) a * (length langs - 1) + sum_list (map (\<lambda>x. 0) (targets a))"
      by (rule occurrences_build_tag [OF a plain])
    ultimately show "occurrences (''%<'' @ t @ ''>%'') (build_sql_expr a) = (if a = l then 2 * (length langs - 1) else 1)
         \<and> occurrences (''%<'' @ l @ ''>%'') (build_sql_expr a) = 0"
      by (simp add: s)
  qed
  have pair: "a \<in> set langs \<longrightarrow> b \<in> set langs \<longrightarrow>
         occurrences (''%<'' @ t @ ''>%'') (sql (query_language_pair a b path))
           = (if a = l then 2 else 0) + (if b = l then 1 else 0)
         \<and> occurrences (''%<'' @ l @ ''>%'') (sql (query_language_pair a b path)) = 0"
  proof (intro impI)
    assume a: "a \<in> set langs" and b: "b \<in> set langs"
    have "occurrences (CHR ''%'' # ''<'' @ t @ ''>%'') (pair_sql (tag_pattern a) (tag_pattern b) (fix_lang_text b))
            = 2 * (if a = l then 1 else 0) + (if b = l then 1 else 0)"
      by (rule occ_percent_pair_sql [OF over [OF a] over [OF b] percent_free(1) [OF b]])
    moreover have "occurrences (CHR ''%'' # ''<'' @ l @ ''>%'') (pair_sql (tag_pattern a) (tag_pattern b) (fix_lang_text b))
            = 2 * (\<lambda>x. 0) a + (\<lambda>x. 0) b"
      by (rule occ_percent_pair_sql [OF plain [OF a] plain [OF b] percent_free(1) [OF b]])
    ultimately show "occurrences (''%<'' @ t @ ''>%'') (sql (query_language_pair a b path))
           = (if a = l then 2 else 0) + (if b = l then 1 else 0)
         \<and> occurrences (''%<'' @ l @ ''>%'') (sql (query_language_pair a b path)) = 0"
      by (simp add: q)
  qed
  show ?thesis
    by (intro conjI) (fact mem tl q1 q2 bs build_structure ts tg build pair)+
qed

theorem tag_override_used_witness:
  "tag_langs ''node'' = Some ''node.js''
   \<and> tag_langs ''visual basic'' = Some ''vb.net''
   \<and> ''python'' \<in> set langs \<and> ''node'' \<in> set langs \<and> ''php'' \<in> set langs
   \<and> ''python'' \<noteq> ''node''
   \<and> ''node'' \<in> set (targets ''python'')
   \<and> occurrences ''%<node.js>%'' (build_sql_expr ''python'') = 1
   \<and> occurrences ''%<node>%'' (build_sql_expr ''python'') = 0
   \<and> occurrences ''%<node.js>%'' (build_sql_expr ''node'') = 50
   \<and> occurrences ''%<node>%'' (build_sql_expr ''node'') = 0
   \<and> occurrences ''%<node.js>%'' (sql (query_language_pair ''python'' ''node'' DIR)) = 1
   \<and> occurrences ''%<node>%'' (sql (query_language_pair ''python'' ''node'' DIR)) = 0
   \<and> occurrences ''%<node.js>%'' (sql (query_language_pair ''node'' ''php'' DIR)) = 2
   \<and> occurrences ''%<node>%'' (sql (query_language_pair ''node'' ''php'' DIR)) = 0
   \<and> sql (query_language_pair ''node'' ''php'' DIR) = pair_sql ''%<node.js>%'' ''%<php>%'' (fix_lang_text ''php'')
   \<and> occurrences ''%<vb.net>%'' (build_sql_expr ''python'') = 1
   \<and> occurrences ''%<visual basic>%'' (build_sql_expr ''python'') = 0"
proof -
  have h: "tag_langs ''node'' = Some ''node.js''" and hv: "tag_langs ''visual basic'' = Some ''vb.net''"
    by (simp_all add: tag_langs_def)
  have mem: "''python'' \<in> set langs" "''node'' \<in> set langs" "''php'' \<in> set langs"
    by (simp_all add: langs_eq)
  have ne: "''python'' \<noteq> ''node''" by simp
  note t1 = tag_override_used [OF h, where a = "''python''" and b = "''node''" and path = DIR]
  note t2 = tag_override_used [OF h, where a = "''node''" and b = "''php''" and path = DIR]
  note t3 = tag_override_used [OF hv, where a = "''python''" and b = "''node''" and path = DIR]
  from t1 have a1: "''python'' \<noteq> ''node'' \<longrightarrow> ''node'' \<in> set (targets ''python'')"
    and b1: "''python'' \<in> set langs \<longrightarrow>
         occurrences (''%<'' @ ''node.js'' @ ''>%'') (build_sql_expr ''python'')
           = (if ''python'' = ''node'' then 2 * (length langs - 1) else 1)
         \<and> occurrences (''%<'' @ ''node'' @ ''>%'') (build_sql_expr ''python'') = 0"
    and c1: "''python'' \<in> set langs \<longrightarrow> ''node'' \<in> set langs \<longrightarrow>
         occurrences (''%<'' @ ''node.js'' @ ''>%'') (sql (query_language_pair ''python'' ''node'' DIR))
           = (if ''python'' = ''node'' then 2 else 0) + (if ''node'' = ''node'' then 1 else 0)
         \<and> occurrences (''%<'' @ ''node'' @ ''>%'') (sql (query_language_pair ''python'' ''node'' DIR)) = 0"
    by blast+
  from t2 have b2: "''node'' \<in> set langs \<longrightarrow>
         occurrences (''%<'' @ ''node.js'' @ ''>%'') (build_sql_expr ''node'')
           = (if ''node'' = ''node'' then 2 * (length langs - 1) else 1)
         \<and> occurrences (''%<'' @ ''node'' @ ''>%'') (build_sql_expr ''node'') = 0"
    and c2: "''node'' \<in> set langs \<longrightarrow> ''php'' \<in> set langs \<longrightarrow>
         occurrences (''%<'' @ ''node.js'' @ ''>%'') (sql (query_language_pair ''node'' ''php'' DIR))
           = (if ''node'' = ''node'' then 2 else 0) + (if ''php'' = ''node'' then 1 else 0)
         \<and> occurrences (''%<'' @ ''node'' @ ''>%'') (sql (query_language_pair ''node'' ''php'' DIR)) = 0"
    and q2: "sql (query_language_pair ''node'' ''php'' DIR)
           = pair_sql (''%<'' @ ''node.js'' @ ''>%'') (tag_pattern ''php'') (fix_lang_text ''php'')"
    by blast+
  from t3 have b3: "''python'' \<in> set langs \<longrightarrow>
         occurrences (''%<'' @ ''vb.net'' @ ''>%'') (build_sql_expr ''python'')
           = (if ''python'' = ''visual basic'' then 2 * (length langs - 1) else 1)
         \<and> occurrences (''%<'' @ ''visual basic'' @ ''>%'') (build_sql_expr ''python'') = 0"
    by blast
  show ?thesis
    using h hv mem a1 b1 c1 b2 c2 q2 b3
    by (simp add: length_langs tag_pattern_def tag_langs_def)
qed

end
